theory Spec2Isabelle
  imports Complex_Main "HOL-Library.Sublist" "HOL-Library.Word"
begin

section \<open>mini-aqm: the AQI classifier and the polling orchestration of \<open>main.py\<close>\<close>

text \<open>
  The development embeds \<open>src/main.py\<close>: the pure classifier \<open>get_breakpoint\<close>, the two
  console renderers \<open>print_debug\<close> and \<open>print_pm\<close>, and the command \<open>main\<close>.
  Everything \<open>main\<close> does to the outside (console lines, the telemetry sink, the systemd
  watchdog, device reads) is recorded as a list of events in program order.
\<close>

subsection \<open>Console styles\<close>

text \<open>
  The ANSI escape sequences of the \<open>colorama\<close> library (\<open>Fore.*\<close>, \<open>Style.*\<close>):
  \<open>ESC [ n m\<close>.
\<close>

definition ESC :: string where
  "ESC = [CHR 0x1B]"

definition Fore_RED :: string where
  "Fore_RED = ESC @ ''[31m''"

definition Fore_GREEN :: string where
  "Fore_GREEN = ESC @ ''[32m''"

definition Fore_YELLOW :: string where
  "Fore_YELLOW = ESC @ ''[33m''"

definition Fore_BLUE :: string where
  "Fore_BLUE = ESC @ ''[34m''"

definition Fore_MAGENTA :: string where
  "Fore_MAGENTA = ESC @ ''[35m''"

definition Style_BRIGHT :: string where
  "Style_BRIGHT = ESC @ ''[1m''"

definition Style_RESET_ALL :: string where
  "Style_RESET_ALL = ESC @ ''[0m''"

subsection \<open>The classifier\<close>

text \<open>
  \<open>get_breakpoint(pm25)\<close> compares its argument with the constants 15.5, 40.5, 65.5, 150
  and 250, all of which are exact binary fractions. Python compares an \<open>int\<close> or a finite
  \<open>float\<close> with them exactly, so the argument is modelled by the real number it denotes.
  The result is the pair (label, style) of the source.
\<close>

definition get_breakpoint :: "real \<Rightarrow> string \<times> string" where
  "get_breakpoint pm25 =
     (if pm25 < 15.5 then (''Good'', Fore_GREEN)
      else if pm25 < 40.5 then (''Moderate'', Fore_YELLOW)
      else if pm25 < 65.5 then (''Unhealthy for Certain Groups'', Fore_YELLOW @ Style_BRIGHT)
      else if pm25 < 150 then (''Unhealthy'', Fore_RED)
      else if pm25 < 250 then (''Very Unhealthy'', Fore_RED @ Style_BRIGHT)
      else (''Hazardous'', Fore_MAGENTA))"

subsection \<open>The breakpoint table of the specification\<close>

text \<open>
  The specification names six categories and gives each a half-open range and a severity
  tier. The table below follows the specification's words, row by row: lower bound
  (inclusive), upper bound (exclusive, absent for the last row), category, tier.
\<close>

datatype AqiCategory =
  Good | Moderate | UnhealthyForSensitiveGroups | Unhealthy | VeryUnhealthy | Hazardous

definition spec_table :: "(real \<times> real option \<times> AqiCategory \<times> nat) list" where
  "spec_table =
     [(0, Some 15.5, Good, 0),
      (15.5, Some 40.5, Moderate, 1),
      (40.5, Some 65.5, UnhealthyForSensitiveGroups, 2),
      (65.5, Some 150, Unhealthy, 3),
      (150, Some 250, VeryUnhealthy, 4),
      (250, None, Hazardous, 5)]"

fun in_row :: "real \<Rightarrow> real \<times> real option \<times> AqiCategory \<times> nat \<Rightarrow> bool" where
  "in_row x (lo, None, c, t) = (lo \<le> x)"
| "in_row x (lo, Some hi, c, t) = (lo \<le> x \<and> x < hi)"

definition spec_classify :: "real \<Rightarrow> (AqiCategory \<times> nat) option" where
  "spec_classify x = map_option snd (map_option snd (find (in_row x) spec_table))"

text \<open>
  The source returns display strings, the specification category names. The labels of the
  source, in the order of its branches, stand for the six categories in the order of the
  table: \<open>Unhealthy for Certain Groups\<close> is the source's text for the third category and
  \<open>Very Unhealthy\<close> for the fifth.
\<close>

definition label_category :: "string \<Rightarrow> AqiCategory option" where
  "label_category l =
     (if l = ''Good'' then Some Good
      else if l = ''Moderate'' then Some Moderate
      else if l = ''Unhealthy for Certain Groups'' then Some UnhealthyForSensitiveGroups
      else if l = ''Unhealthy'' then Some Unhealthy
      else if l = ''Very Unhealthy'' then Some VeryUnhealthy
      else if l = ''Hazardous'' then Some Hazardous
      else None)"

fun tier :: "AqiCategory \<Rightarrow> nat" where
  "tier Good = 0"
| "tier Moderate = 1"
| "tier UnhealthyForSensitiveGroups = 2"
| "tier Unhealthy = 3"
| "tier VeryUnhealthy = 4"
| "tier Hazardous = 5"

definition classify :: "real \<Rightarrow> AqiCategory option" where
  "classify x = label_category (fst (get_breakpoint x))"

definition severity :: "real \<Rightarrow> nat option" where
  "severity x = map_option tier (classify x)"

section \<open>The data of the collaborators\<close>

text \<open>
  Modelled from the spec: the declaration of \<open>PMSData\<close> (module \<open>pms7003\<close>) is not
  among the sources. It is the specification's Measurement: header bytes, frame length,
  six PM concentration fields, six particle-count fields, a reserved field and a checksum.
  The field names are the attributes \<open>print_debug\<close> reads; the two header fields are
  bytes (they are printed with \<open>%c\<close>), the others Python integers.
\<close>

record PMSData =
  header_high :: "8 word"
  header_low :: "8 word"
  frame_length :: int
  pm1_0_cf1 :: int
  pm2_5_cf1 :: int
  pm10_0_cf1 :: int
  pm1_0_atm :: int
  pm2_5_atm :: int
  pm10_0_atm :: int
  count_0_3 :: int
  count_0_5 :: int
  count_1_0 :: int
  count_2_5 :: int
  count_5_0 :: int
  count_10_0 :: int
  reserved :: int
  checksum :: int

text \<open>
  Modelled from the spec: \<open>data._asdict()\<close> of the named tuple, the attributes by name,
  in the order of the record above.
\<close>

definition asdict :: "PMSData \<Rightarrow> (string \<times> int) list" where
  "asdict data =
     [(''header_high'', uint (header_high data)),
      (''header_low'', uint (header_low data)),
      (''frame_length'', frame_length data),
      (''pm1_0_cf1'', pm1_0_cf1 data),
      (''pm2_5_cf1'', pm2_5_cf1 data),
      (''pm10_0_cf1'', pm10_0_cf1 data),
      (''pm1_0_atm'', pm1_0_atm data),
      (''pm2_5_atm'', pm2_5_atm data),
      (''pm10_0_atm'', pm10_0_atm data),
      (''count_0_3'', count_0_3 data),
      (''count_0_5'', count_0_5 data),
      (''count_1_0'', count_1_0 data),
      (''count_2_5'', count_2_5 data),
      (''count_5_0'', count_5_0 data),
      (''count_10_0'', count_10_0 data),
      (''reserved'', reserved data),
      (''checksum'', checksum data)]"

text \<open>
  Modelled from the spec: the device handle \<open>PMS7003\<close> (the specification's SensorHandle:
  an id and a port path) and the \<open>SearchResult\<close> of discovery (the specification's
  DiscoveryResult: description, port path, device handle or absent, error or absent).
  Neither class is among the sources; \<open>main\<close> reads \<open>dev.id\<close>, \<open>p.desc\<close>, \<open>p.port\<close>,
  \<open>p.dev\<close> and \<open>p.error\<close>.
\<close>

record PMS7003 =
  id_dev :: string
  port_dev :: string

record SearchResult =
  desc :: string
  port :: string
  dev :: "PMS7003 option"
  error :: "string option"

text \<open>
  Modelled from the spec: Python truth values of the two classes. A discovery result and
  a device handle are plain records, which Python counts as true (neither \<open>None\<close> nor an
  empty container).
\<close>

definition truthy_result :: "SearchResult \<Rightarrow> bool" where
  "truthy_result p = True"

definition truthy_dev :: "PMS7003 \<Rightarrow> bool" where
  "truthy_dev d = True"

text \<open>
  Modelled from the spec: the telemetry sink \<open>InfluxdbLogger\<close> (module
  \<open>influxdb_logger\<close>), of which \<open>main\<close> reads the attributes \<open>MEASUREMENT\<close> and
  \<open>path\<close> and calls \<open>emit\<close>.
\<close>

record InfluxdbLogger =
  MEASUREMENT :: string
  path :: string

subsection \<open>Exceptions, events and the world outside\<close>

datatype error = ReadError string | SinkError string

datatype outcome = Returned | Raised error | Running

datatype event =
    StdOut string
  | StdErr string
  | SinkOpen string
  | WdReady
  | WdPing
  | DevRead PMS7003
  | SinkEmit "(string \<times> int) list" "(string \<times> string) list"

text \<open>
  What the collaborators answer is a parameter of the model: the discovery result for a
  port filter, the sink object built for a path, and, for the device at position \<open>j\<close> of
  iteration \<open>k\<close>, whether \<open>read()\<close> returns a measurement or raises and whether \<open>emit\<close>
  raises. The other calls (discovery, building the sink, the watchdog, console writes)
  are taken to return, and a \<open>read()\<close> that blocks for ever is outside the model: nothing
  of the run follows it.
\<close>

record world =
  find_devices :: "string option \<Rightarrow> SearchResult list"
  new_logger :: "string \<Rightarrow> InfluxdbLogger"
  dev_read :: "nat \<Rightarrow> nat \<Rightarrow> string + PMSData"
  logger_emit :: "nat \<Rightarrow> nat \<Rightarrow> string option"

fun is_emit :: "event \<Rightarrow> bool" where
  "is_emit (SinkEmit f t) = True"
| "is_emit e = False"

fun is_stdout :: "event \<Rightarrow> bool" where
  "is_stdout (StdOut s) = True"
| "is_stdout e = False"

fun is_stderr :: "event \<Rightarrow> bool" where
  "is_stderr (StdErr s) = True"
| "is_stderr e = False"

section \<open>Rendering\<close>

text \<open>\<open>str(n)\<close> of a Python integer, and \<open>str\<close> of an optional string.\<close>

definition digit_char :: "nat \<Rightarrow> char" where
  "digit_char n = ''0123456789'' ! (n mod 10)"

fun str_nat :: "nat \<Rightarrow> string" where
  "str_nat n = (if n < 10 then [digit_char n] else str_nat (n div 10) @ [digit_char n])"

definition str_int :: "int \<Rightarrow> string" where
  "str_int i = (if i < 0 then CHR ''-'' # str_nat (nat (- i)) else str_nat (nat i))"

fun str_opt :: "string option \<Rightarrow> string" where
  "str_opt None = ''None''"
| "str_opt (Some s) = s"

definition fmt_c :: "8 word \<Rightarrow> char" where
  "fmt_c b = char_of (unat b)"

fun join :: "string \<Rightarrow> string list \<Rightarrow> string" where
  "join sep [] = []"
| "join sep [x] = x"
| "join sep (x # y # ys) = x @ sep @ join sep (y # ys)"

text \<open>\<open>print_debug\<close>: the lines it prints, one per \<open>print\<close> call.\<close>

definition print_debug :: "PMSData \<Rightarrow> string list" where
  "print_debug data =
     [replicate 76 (CHR ''=''),
      ''Header : '' @ [fmt_c (header_high data)] @ '' '' @ [fmt_c (header_low data)]
        @ '' '' @ [CHR 0x09, CHR 0x09] @ '' | Frame length : '' @ str_int (frame_length data),
      ''PM 1.0 (CF=1) : '' @ str_int (pm1_0_cf1 data) @ [CHR 0x09] @ '' | PM 1.0 : ''
        @ str_int (pm1_0_atm data),
      ''PM 2.5 (CF=1) : '' @ str_int (pm2_5_cf1 data) @ [CHR 0x09] @ '' | PM 2.5 : ''
        @ str_int (pm2_5_atm data),
      ''PM 10.0 (CF=1) : '' @ str_int (pm10_0_cf1 data) @ [CHR 0x09] @ '' | PM 10.0 : ''
        @ str_int (pm10_0_atm data),
      ''0.3um in 0.1L of air : '' @ str_int (count_0_3 data),
      ''0.5um in 0.1L of air : '' @ str_int (count_0_5 data),
      ''1.0um in 0.1L of air : '' @ str_int (count_1_0 data),
      ''2.5um in 0.1L of air : '' @ str_int (count_2_5 data),
      ''5.0um in 0.1L of air : '' @ str_int (count_5_0 data),
      ''10.0um in 0.1L of air : '' @ str_int (count_10_0 data),
      ''Reserved F : '' @ str_int (reserved data),
      ''CHKSUM : '' @ str_int (checksum data),
      replicate 76 (CHR ''='')]"

text \<open>\<open>print_pm\<close>: the one summary line it echoes.\<close>

definition print_pm :: "PMSData \<Rightarrow> string" where
  "print_pm data =
     (case get_breakpoint (of_int (pm2_5_atm data)) of
        (aqi, style) \<Rightarrow>
          let result =
                [(''PM 1.0'', str_int (pm1_0_atm data)),
                 (''PM 2.5'', style @ str_int (pm2_5_atm data) @ Style_RESET_ALL),
                 (''PM 10'', str_int (pm10_0_atm data)),
                 (''AQI'', style @ aqi @ Style_RESET_ALL)];
              pairs = map (\<lambda>(k, v). k @ '': '' @ v) result
          in join ''  '' pairs)"

text \<open>
  \<open>configure_logging\<close> and \<open>log.debug\<close>: the logger \<open>mini-aqm\<close> gets a stream handler
  (standard error) and the level DEBUG in debug mode, ERROR otherwise, so a debug message
  is written only in debug mode.
\<close>

definition log_debug :: "bool \<Rightarrow> string \<Rightarrow> event list" where
  "log_debug debug msg = (if debug then [StdErr msg] else [])"

definition configure_logging :: "bool \<Rightarrow> event list" where
  "configure_logging debug = log_debug debug ''configured debug logging''"

section \<open>The command \<open>main\<close>\<close>

text \<open>The telemetry record of one measurement: the fields whose name starts with \<open>pm\<close>.\<close>

definition pm_fields :: "PMSData \<Rightarrow> (string \<times> int) list" where
  "pm_fields data = filter (\<lambda>(k, v). prefix ''pm'' k) (asdict data)"

definition tags :: "PMS7003 \<Rightarrow> (string \<times> string) list" where
  "tags d = [(''type'', ''PMS7003''), (''id'', id_dev d)]"

text \<open>
  The body of \<open>for dev in devs\<close> in iteration \<open>k\<close>, from position \<open>j\<close> on. An exception of
  \<open>read\<close> or \<open>emit\<close> ends the loop (and the program) at once.
\<close>

fun poll_devices ::
  "world \<Rightarrow> bool \<Rightarrow> bool \<Rightarrow> nat \<Rightarrow> nat \<Rightarrow> PMS7003 list \<Rightarrow> event list \<times> error option" where
  "poll_devices w debug log_only k j [] = ([], None)"
| "poll_devices w debug log_only k j (d # ds) =
     (case dev_read w k j of
        Inl msg \<Rightarrow> ([DevRead d], Some (ReadError msg))
      | Inr data \<Rightarrow>
          if debug then
            (case poll_devices w debug log_only k (Suc j) ds of
               (t, r) \<Rightarrow> (DevRead d # map StdOut (print_debug data) @ t, r))
          else
            (case logger_emit w k j of
               Some msg \<Rightarrow> ([DevRead d, SinkEmit (pm_fields data) (tags d)], Some (SinkError msg))
             | None \<Rightarrow>
                 (case poll_devices w debug log_only k (Suc j) ds of
                    (t, r) \<Rightarrow>
                      (DevRead d # SinkEmit (pm_fields data) (tags d)
                         # (if \<not> log_only then [StdOut (print_pm data)] else []) @ t, r))))"

text \<open>One pass of the body of \<open>while True\<close>: the ping, then the devices.\<close>

definition iteration ::
  "world \<Rightarrow> bool \<Rightarrow> bool \<Rightarrow> PMS7003 list \<Rightarrow> nat \<Rightarrow> event list \<times> error option" where
  "iteration w debug log_only devs k =
     (case poll_devices w debug log_only k 0 devs of (t, r) \<Rightarrow> (WdPing # t, r))"

text \<open>
  \<open>while True\<close> has no exit of its own: it ends only by an exception. The model runs it
  for at most \<open>fuel\<close> iterations, starting with iteration \<open>k\<close>, and answers \<open>Running\<close>
  when the fuel is used up.
\<close>

fun run_loop ::
  "world \<Rightarrow> bool \<Rightarrow> bool \<Rightarrow> PMS7003 list \<Rightarrow> nat \<Rightarrow> nat \<Rightarrow> event list \<times> outcome" where
  "run_loop w debug log_only devs 0 k = ([], Running)"
| "run_loop w debug log_only devs (Suc fuel) k =
     (case iteration w debug log_only devs k of
        (t, Some e) \<Rightarrow> (t, Raised e)
      | (t, None) \<Rightarrow>
          (case run_loop w debug log_only devs fuel (Suc k) of (t', r) \<Rightarrow> (t @ t', r)))"

text \<open>The warning for a discovery result without a device.\<close>

definition warning :: "SearchResult \<Rightarrow> string" where
  "warning p =
     Fore_YELLOW @ ''error on '' @ desc p @ '' '' @ port p @ '': '' @ str_opt (error p)
       @ Style_RESET_ALL"

fun warnings :: "SearchResult list \<Rightarrow> event list" where
  "warnings [] = []"
| "warnings (p # ps) =
     (if dev p = None then StdErr (warning p) # warnings ps else warnings ps)"

text \<open>\<open>devs = [p.dev for p in possible if p.dev]\<close>\<close>

fun devs_of :: "SearchResult list \<Rightarrow> PMS7003 list" where
  "devs_of [] = []"
| "devs_of (p # ps) =
     (case dev p of
        None \<Rightarrow> devs_of ps
      | Some d \<Rightarrow> if truthy_dev d then d # devs_of ps else devs_of ps)"

definition announcement :: "InfluxdbLogger \<Rightarrow> string" where
  "announcement logger =
     Fore_BLUE @ ''writing influxdb measurement '' @ MEASUREMENT logger @ '' to ''
       @ path logger @ Style_RESET_ALL"

definition beginning :: "PMS7003 \<Rightarrow> string" where
  "beginning d =
     Fore_GREEN @ ''beginning to read data from '' @ id_dev d @ ''...'' @ Style_RESET_ALL"

definition no_serial_devices :: string where
  "no_serial_devices =
     Fore_RED
       @ ''no serial devices found. is your device plugged in? did you install drivers?''
       @ Style_RESET_ALL"

definition no_pms_devices :: string where
  "no_pms_devices =
     Fore_RED
       @ ''no PMS7003 devices found; resolve any errors printed above and try again''
       @ Style_RESET_ALL"

text \<open>
  \<open>main(port, debug, log_only, log_path)\<close>; the port filter is called \<open>only\<close> here, after
  the keyword it is passed as. The result is the trace of events and how the run ended.
\<close>

definition main ::
  "world \<Rightarrow> nat \<Rightarrow> string option \<Rightarrow> bool \<Rightarrow> bool \<Rightarrow> string \<Rightarrow> event list \<times> outcome" where
  "main w fuel only debug log_only log_path =
     (let t0 = configure_logging debug
                 @ log_debug debug ''looking for possible PMS7003 devices...'';
          possible = find_devices w only
      in if \<not> list_ex truthy_result possible then (t0 @ [StdErr no_serial_devices], Returned)
         else
           let t1 = warnings possible;
               devs = devs_of possible
           in if \<not> list_ex truthy_dev devs then
                (t0 @ t1 @ [StdErr no_pms_devices], Returned)
              else
                let logger = new_logger w log_path;
                    t2 = [SinkOpen log_path, StdOut (announcement logger)]
                           @ map (\<lambda>d. StdOut (beginning d)) devs
                           @ [WdReady]
                in (case run_loop w debug log_only devs fuel 0 of
                      (t3, r) \<Rightarrow> (t0 @ t1 @ t2 @ t3, r)))"

section \<open>What a pass over the devices is expected to produce\<close>

text \<open>
  The events one device contributes to a pass in which its read and its emit return: in
  normal mode the read, the telemetry record and (unless log-only) the summary line; in
  debug mode the read and the lines of \<open>print_debug\<close>.
\<close>

definition record_of :: "PMS7003 \<Rightarrow> PMSData \<Rightarrow> event" where
  "record_of d m = SinkEmit (pm_fields m) (tags d)"

definition normal_events :: "bool \<Rightarrow> PMS7003 \<Rightarrow> PMSData \<Rightarrow> event list" where
  "normal_events log_only d m =
     DevRead d # SinkEmit (pm_fields m) (tags d) # (if log_only then [] else [StdOut (print_pm m)])"

definition debug_events :: "PMS7003 \<Rightarrow> PMSData \<Rightarrow> event list" where
  "debug_events d m = DevRead d # map StdOut (print_debug m)"

text \<open>The two debug messages with which \<open>main\<close> starts.\<close>

definition startup_log :: "bool \<Rightarrow> event list" where
  "startup_log debug =
     configure_logging debug @ log_debug debug ''looking for possible PMS7003 devices...''"

subsection \<open>A sample installation\<close>

text \<open>
  One measurement, one device, a port that fails and a port that answers, and a world in
  which every read of the first two iterations returns the measurement and every later
  read raises.
\<close>

definition ex_data :: PMSData where
  "ex_data =
     \<lparr>header_high = 0x42, header_low = 0x4D, frame_length = 28,
      pm1_0_cf1 = 3, pm2_5_cf1 = 5, pm10_0_cf1 = 7,
      pm1_0_atm = 3, pm2_5_atm = 42, pm10_0_atm = 7,
      count_0_3 = 100, count_0_5 = 50, count_1_0 = 10,
      count_2_5 = 2, count_5_0 = 1, count_10_0 = 0,
      reserved = 0, checksum = 321\<rparr>"

definition ex_dev :: PMS7003 where
  "ex_dev = \<lparr>id_dev = ''ttyUSB0'', port_dev = ''/dev/ttyUSB0''\<rparr>"

definition ex_failed :: SearchResult where
  "ex_failed =
     \<lparr>desc = ''n/a'', port = ''/dev/ttyS0'', dev = None, error = Some ''Permission denied''\<rparr>"

definition ex_found :: SearchResult where
  "ex_found = \<lparr>desc = ''USB Serial'', port = ''/dev/ttyUSB0'', dev = Some ex_dev, error = None\<rparr>"

definition ex_world :: "SearchResult list \<Rightarrow> world" where
  "ex_world possible =
     \<lparr>find_devices = (\<lambda>only. possible),
      new_logger = (\<lambda>p. \<lparr>MEASUREMENT = ''particulate_matter'', path = p\<rparr>),
      dev_read = (\<lambda>k j. if k < 2 then Inr ex_data else Inl ''read timeout''),
      logger_emit = (\<lambda>k j. None)\<rparr>"

section \<open>Properties of the classifier\<close>

lemma label_category_simps:
  "label_category ''Good'' = Some Good"
  "label_category ''Moderate'' = Some Moderate"
  "label_category ''Unhealthy for Certain Groups'' = Some UnhealthyForSensitiveGroups"
  "label_category ''Unhealthy'' = Some Unhealthy"
  "label_category ''Very Unhealthy'' = Some VeryUnhealthy"
  "label_category ''Hazardous'' = Some Hazardous"
  by (simp_all add: label_category_def)

lemma classify_cases:
  "classify x =
     Some (if x < 15.5 then Good
           else if x < 40.5 then Moderate
           else if x < 65.5 then UnhealthyForSensitiveGroups
           else if x < 150 then Unhealthy
           else if x < 250 then VeryUnhealthy
           else Hazardous)"
  by (simp add: classify_def get_breakpoint_def label_category_simps)

lemma severity_cases:
  "severity x =
     Some (if x < 15.5 then 0
           else if x < 40.5 then 1
           else if x < 65.5 then 2
           else if x < 150 then 3
           else if x < 250 then 4
           else 5)"
  by (simp add: severity_def classify_cases)

lemma find_row:
  "find (in_row x) spec_table =
     (if 0 \<le> x \<and> x < 15.5 then Some (0, Some 15.5, Good, 0)
      else if 15.5 \<le> x \<and> x < 40.5 then Some (15.5, Some 40.5, Moderate, 1)
      else if 40.5 \<le> x \<and> x < 65.5 then Some (40.5, Some 65.5, UnhealthyForSensitiveGroups, 2)
      else if 65.5 \<le> x \<and> x < 150 then Some (65.5, Some 150, Unhealthy, 3)
      else if 150 \<le> x \<and> x < 250 then Some (150, Some 250, VeryUnhealthy, 4)
      else if 250 \<le> x then Some (250, None, Hazardous, 5)
      else None)"
  unfolding spec_table_def by simp

lemma spec_classify_cases:
  "0 \<le> x \<Longrightarrow>
   spec_classify x =
     Some (if x < 15.5 then (Good, 0)
           else if x < 40.5 then (Moderate, 1)
           else if x < 65.5 then (UnhealthyForSensitiveGroups, 2)
           else if x < 150 then (Unhealthy, 3)
           else if x < 250 then (VeryUnhealthy, 4)
           else (Hazardous, 5))"
  unfolding spec_classify_def find_row by (simp del: map_option_eq_Some)

text \<open>
  Claim C1. For every non-negative concentration the classifier returns the category (and
  with it the tier) of the specification's table, upper bounds exclusive; the six boundary
  values of the specification's test table come out as listed. The model of
  \<open>get_breakpoint\<close> has no error branch because the source has none: every comparison
  chain ends in the \<open>else\<close>.
\<close>

theorem get_breakpoint_matches_table:
  "(0 \<le> x \<longrightarrow>
      (\<exists>c. classify x = Some c \<and> spec_classify x = Some (c, tier c))) \<and>
   classify 15.4 = Some Good \<and>
   classify 15.5 = Some Moderate \<and>
   classify 40.5 = Some UnhealthyForSensitiveGroups \<and>
   classify 65.5 = Some Unhealthy \<and>
   classify 150 = Some VeryUnhealthy \<and>
   classify 250 = Some Hazardous"
proof -
  have "\<exists>c. classify x = Some c \<and> spec_classify x = Some (c, tier c)" if "0 \<le> x"
    using that by (simp add: classify_cases spec_classify_cases)
  moreover have "classify 15.4 = Some Good" "classify 15.5 = Some Moderate"
    "classify 40.5 = Some UnhealthyForSensitiveGroups" "classify 65.5 = Some Unhealthy"
    "classify 150 = Some VeryUnhealthy" "classify 250 = Some Hazardous"
    by (simp_all add: classify_cases)
  ultimately show ?thesis by blast
qed

theorem get_breakpoint_matches_table_witness:
  "(0::real) \<le> 40.5 \<and> fst (get_breakpoint 40.5) = ''Unhealthy for Certain Groups'' \<and>
   classify 40.5 = Some UnhealthyForSensitiveGroups \<and>
   spec_classify 40.5 = Some (UnhealthyForSensitiveGroups, 2)"
  using get_breakpoint_matches_table [of "40.5"]
  by (simp add: get_breakpoint_def classify_cases spec_classify_cases)

text \<open>
  Claim C5. The severity tier is defined for every concentration and is monotonic:
  whenever \<open>x \<le> y\<close>, the tier of \<open>x\<close> is at most the tier of \<open>y\<close>, with tiers
  numbered from Good = 0 to Hazardous = 5.
\<close>

theorem severity_monotonic:
  "x \<le> y \<Longrightarrow> \<exists>a b. severity x = Some a \<and> severity y = Some b \<and> a \<le> b \<and> b \<le> 5"
  by (simp add: severity_cases)

theorem severity_monotonic_witness:
  "(12::real) \<le> 70 \<and> severity 12 = Some 0 \<and> severity 70 = Some 3"
  using severity_monotonic [of 12 70]
  by (simp add: severity_cases)

text \<open>
  Claim C9. The classifier needs no non-negativity precondition: every input strictly
  below 15.5, negative ones included, is answered with the label \<open>Good\<close> (and the green
  style), and no input is rejected.
\<close>

theorem get_breakpoint_below_first_bound:
  "x < 15.5 \<Longrightarrow> get_breakpoint x = (''Good'', Fore_GREEN) \<and> classify x = Some Good"
  by (simp add: classify_cases get_breakpoint_def)

theorem get_breakpoint_below_first_bound_witness:
  "(-3::real) < 15.5 \<and> get_breakpoint (-3) = (''Good'', Fore_GREEN) \<and>
   classify (-3) = Some Good"
  using get_breakpoint_below_first_bound [of "-3"]
  by simp

section \<open>Properties of the polling orchestration\<close>

subsection \<open>One pass over the devices\<close>

lemma pm_fields_keys:
  "map fst (pm_fields m) =
     [''pm1_0_cf1'', ''pm2_5_cf1'', ''pm10_0_cf1'', ''pm1_0_atm'', ''pm2_5_atm'', ''pm10_0_atm'']"
  by (simp add: pm_fields_def asdict_def)

lemma poll_devices_no_ping: "WdPing \<notin> set (fst (poll_devices w debug log_only k j ds))"
  by (induction ds arbitrary: j) (auto simp: split_beta split: sum.splits option.splits)

lemma poll_devices_debug_no_emit:
  "e \<in> set (fst (poll_devices w True log_only k j ds)) \<Longrightarrow> \<not> is_emit e"
  by (induction ds arbitrary: j) (auto simp: split_beta split: sum.splits)

lemma poll_devices_log_only_no_stdout:
  "e \<in> set (fst (poll_devices w False True k j ds)) \<Longrightarrow> \<not> is_stdout e"
  by (induction ds arbitrary: j) (auto simp: split_beta split: sum.splits option.splits)

lemma poll_devices_log_only:
  "poll_devices w False True k j ds =
     (filter (\<lambda>e. \<not> is_stdout e) (fst (poll_devices w False False k j ds)),
      snd (poll_devices w False False k j ds))"
  by (induction ds arbitrary: j) (auto simp: split_beta split: sum.splits option.splits)

lemma poll_devices_normal:
  "length ms = length ds \<Longrightarrow>
   \<forall>i<length ds. dev_read w k (j + i) = Inr (ms ! i) \<and> logger_emit w k (j + i) = None \<Longrightarrow>
   poll_devices w False log_only k j ds = (concat (map2 (normal_events log_only) ds ms), None)"
proof (induction ds arbitrary: j ms)
  case Nil
  then show ?case by simp
next
  case (Cons d ds)
  then obtain m ms' where ms: "ms = m # ms'" by (cases ms) auto
  from Cons.prems(2) have h0: "dev_read w k j = Inr m" "logger_emit w k j = None"
    using ms by auto
  have "\<forall>i<length ds. dev_read w k (Suc j + i) = Inr (ms' ! i) \<and> logger_emit w k (Suc j + i) = None"
  proof (intro allI impI)
    fix i assume "i < length ds"
    then have "Suc i < length (d # ds)" by simp
    with Cons.prems(2) have "dev_read w k (j + Suc i) = Inr (ms ! Suc i) \<and> logger_emit w k (j + Suc i) = None"
      by blast
    then show "dev_read w k (Suc j + i) = Inr (ms' ! i) \<and> logger_emit w k (Suc j + i) = None"
      using ms by simp
  qed
  moreover have "length ms' = length ds" using Cons.prems(1) ms by simp
  ultimately have "poll_devices w False log_only k (Suc j) ds = (concat (map2 (normal_events log_only) ds ms'), None)"
    by (rule Cons.IH[rotated])
  then show ?case using h0 ms by (simp add: normal_events_def)
qed

lemma poll_devices_debug:
  "length ms = length ds \<Longrightarrow>
   \<forall>i<length ds. dev_read w k (j + i) = Inr (ms ! i) \<Longrightarrow>
   poll_devices w True log_only k j ds = (concat (map2 debug_events ds ms), None)"
proof (induction ds arbitrary: j ms)
  case Nil
  then show ?case by simp
next
  case (Cons d ds)
  then obtain m ms' where ms: "ms = m # ms'" by (cases ms) auto
  from Cons.prems(2) have h0: "dev_read w k j = Inr m"
    using ms by auto
  have "\<forall>i<length ds. dev_read w k (Suc j + i) = Inr (ms' ! i)"
  proof (intro allI impI)
    fix i assume "i < length ds"
    then have "Suc i < length (d # ds)" by simp
    with Cons.prems(2) have "dev_read w k (j + Suc i) = Inr (ms ! Suc i)"
      by blast
    then show "dev_read w k (Suc j + i) = Inr (ms' ! i)"
      using ms by simp
  qed
  moreover have "length ms' = length ds" using Cons.prems(1) ms by simp
  ultimately have "poll_devices w True log_only k (Suc j) ds = (concat (map2 debug_events ds ms'), None)"
    by (rule Cons.IH[rotated])
  then show ?case using h0 ms by (simp add: debug_events_def)
qed

lemma run_loop_trace:
  "\<exists>n\<le>fuel. fst (run_loop w debug log_only devs fuel k) =
      concat (map (\<lambda>i. fst (iteration w debug log_only devs i)) [k..<k + n]) \<and>
     (snd (run_loop w debug log_only devs fuel k) = Running \<longrightarrow> n = fuel)"
proof (induction fuel arbitrary: k)
  case 0
  then show ?case by simp
next
  case (Suc fuel)
  let ?it = "\<lambda>i. fst (iteration w debug log_only devs i)"
  obtain t r where it: "iteration w debug log_only devs k = (t, r)"
    by (cases "iteration w debug log_only devs k")
  show ?case
  proof (cases r)
    case None
    from Suc.IH[of "Suc k"] obtain n where n: "n \<le> fuel"
      "fst (run_loop w debug log_only devs fuel (Suc k)) = concat (map ?it [Suc k..<Suc k + n])"
      "snd (run_loop w debug log_only devs fuel (Suc k)) = Running \<longrightarrow> n = fuel"
      by blast
    have step: "run_loop w debug log_only devs (Suc fuel) k =
        (t @ fst (run_loop w debug log_only devs fuel (Suc k)),
         snd (run_loop w debug log_only devs fuel (Suc k)))"
      using it None by (simp add: split_beta)
    have "[k..<k + Suc n] = k # [Suc k..<Suc k + n]"
      by (simp add: upt_conv_Cons)
    then have "concat (map ?it [k..<k + Suc n]) = t @ concat (map ?it [Suc k..<Suc k + n])"
      using it by simp
    then have "fst (run_loop w debug log_only devs (Suc fuel) k) = concat (map ?it [k..<k + Suc n])"
      using step n(2) by simp
    moreover have "snd (run_loop w debug log_only devs (Suc fuel) k) = Running \<longrightarrow> Suc n = Suc fuel"
      using step n(3) by simp
    moreover have "Suc n \<le> Suc fuel" using n(1) by simp
    ultimately show ?thesis by blast
  next
    case (Some e)
    have "run_loop w debug log_only devs (Suc fuel) k = (t, Raised e)"
      using it Some by simp
    moreover have "concat (map ?it [k..<k + Suc 0]) = t" using it by simp
    moreover have "Suc 0 \<le> Suc fuel" by simp
    ultimately show ?thesis by (metis fst_conv outcome.distinct(5) snd_conv)
  qed
qed

lemma run_loop_events:
  assumes "\<And>i e. e \<in> set (fst (iteration w debug log_only devs i)) \<Longrightarrow> P e"
  shows "e \<in> set (fst (run_loop w debug log_only devs fuel k)) \<Longrightarrow> P e"
proof (induction fuel arbitrary: k)
  case 0
  then show ?case by simp
next
  case (Suc fuel)
  obtain t r where it: "iteration w debug log_only devs k = (t, r)"
    by (cases "iteration w debug log_only devs k")
  then have t: "\<And>e. e \<in> set t \<Longrightarrow> P e" using assms[of _ k] by simp
  show ?case
  proof (cases r)
    case None
    then have "run_loop w debug log_only devs (Suc fuel) k =
        (t @ fst (run_loop w debug log_only devs fuel (Suc k)),
         snd (run_loop w debug log_only devs fuel (Suc k)))"
      using it by (simp add: split_beta)
    then show ?thesis using Suc t by auto
  next
    case (Some a)
    then show ?thesis using Suc.prems it t by auto
  qed
qed

lemma list_ex_truthy_result: "list_ex truthy_result ps \<longleftrightarrow> ps \<noteq> []"
  by (cases ps) (simp_all add: truthy_result_def)

lemma list_ex_truthy_dev: "list_ex truthy_dev ds \<longleftrightarrow> ds \<noteq> []"
  by (cases ds) (simp_all add: truthy_dev_def)

lemma devs_of_empty: "devs_of ps = [] \<longleftrightarrow> (\<forall>p\<in>set ps. dev p = None)"
  by (induction ps) (auto simp: truthy_dev_def split: option.splits)

lemma warnings_filter:
  "warnings ps = map (\<lambda>p. StdErr (warning p)) (filter (\<lambda>p. dev p = None) ps)"
  by (induction ps) simp_all

lemma startup_log_stderr: "e \<in> set (startup_log debug) \<Longrightarrow> is_stderr e"
  by (auto simp: startup_log_def configure_logging_def log_debug_def split: if_splits)

lemma warnings_stderr: "e \<in> set (warnings ps) \<Longrightarrow> is_stderr e"
  by (auto simp: warnings_filter)

lemma stderr_not_emit: "is_stderr e \<Longrightarrow> \<not> is_emit e"
  by (cases e) simp_all

lemma main_returned:
  "devs_of (find_devices w only) = [] \<Longrightarrow>
   main w fuel only debug log_only log_path =
     (startup_log debug @
        (if find_devices w only = [] then [StdErr no_serial_devices]
         else warnings (find_devices w only) @ [StdErr no_pms_devices]),
      Returned)"
  by (simp add: main_def startup_log_def Let_def list_ex_truthy_result list_ex_truthy_dev)

lemma devs_of_nonempty: "devs_of ps \<noteq> [] \<Longrightarrow> ps \<noteq> []"
  by (cases ps) simp_all

lemma main_running:
  "devs_of (find_devices w only) \<noteq> [] \<Longrightarrow>
   main w fuel only debug log_only log_path =
     (startup_log debug @ warnings (find_devices w only)
        @ [SinkOpen log_path, StdOut (announcement (new_logger w log_path))]
        @ map (\<lambda>d. StdOut (beginning d)) (devs_of (find_devices w only))
        @ [WdReady]
        @ fst (run_loop w debug log_only (devs_of (find_devices w only)) fuel 0),
      snd (run_loop w debug log_only (devs_of (find_devices w only)) fuel 0))"
  by (simp add: main_def startup_log_def Let_def list_ex_truthy_result list_ex_truthy_dev
      devs_of_nonempty split_beta)

lemma iteration_debug_no_emit:
  "e \<in> set (fst (iteration w True log_only devs k)) \<Longrightarrow> \<not> is_emit e"
  using poll_devices_debug_no_emit[of e w log_only k 0 devs]
  by (auto simp: iteration_def split_beta)

lemma main_debug_no_emit:
  assumes "e \<in> set (fst (main w fuel only True log_only log_path))"
  shows "\<not> is_emit e"
proof (cases "devs_of (find_devices w only) = []")
  case True
  then show ?thesis
    using assms startup_log_stderr[of e True] warnings_stderr[of e "find_devices w only"]
    by (auto simp: main_returned dest: stderr_not_emit split: if_splits)
next
  case False
  have loop: "\<not> is_emit e'"
    if "e' \<in> set (fst (run_loop w True log_only (devs_of (find_devices w only)) fuel 0))" for e'
    using that by (rule run_loop_events[where P = "\<lambda>e. \<not> is_emit e", rotated])
      (rule iteration_debug_no_emit)
  show ?thesis
    using assms False startup_log_stderr[of e True] warnings_stderr[of e "find_devices w only"]
      loop[of e]
    by (auto simp: main_running announcement_def dest: stderr_not_emit)
qed

lemma emits_of_normal_events:
  "length ms = length ds \<Longrightarrow>
   filter is_emit (concat (map2 (normal_events log_only) ds ms)) =
     map2 record_of ds ms"
  by (induction ds ms rule: list_induct2') (simp_all add: normal_events_def record_of_def)

lemma poll_devices_emits:
  "\<exists>ms. length ms \<le> length ds \<and>
        (\<forall>i<length ms. dev_read w k (j + i) = Inr (ms ! i)) \<and>
        filter is_emit (fst (poll_devices w False log_only k j ds)) =
          map2 record_of (take (length ms) ds) ms \<and>
        (snd (poll_devices w False log_only k j ds) = None \<longrightarrow> length ms = length ds)"
proof (induction ds arbitrary: j)
  case Nil
  then show ?case by simp
next
  case (Cons d ds)
  show ?case
  proof (cases "dev_read w k j")
    case (Inl msg)
    show ?thesis
    proof (intro exI[of _ "[]"] conjI)
      show "filter is_emit (fst (poll_devices w False log_only k j (d # ds))) =
          map2 record_of (take (length ([]::PMSData list)) (d # ds)) []"
        using Inl by simp
      show "snd (poll_devices w False log_only k j (d # ds)) = None \<longrightarrow>
          length ([]::PMSData list) = length (d # ds)"
        using Inl by simp
    qed simp_all
  next
    case (Inr m)
    show ?thesis
    proof (cases "logger_emit w k j")
      case (Some msg)
      show ?thesis
      proof (intro exI[of _ "[m]"] conjI)
        show "filter is_emit (fst (poll_devices w False log_only k j (d # ds))) =
            map2 record_of (take (length [m]) (d # ds)) [m]"
          using Inr Some by (simp add: record_of_def)
        show "snd (poll_devices w False log_only k j (d # ds)) = None \<longrightarrow>
            length [m] = length (d # ds)"
          using Inr Some by simp
        show "\<forall>i<length [m]. dev_read w k (j + i) = Inr ([m] ! i)"
          using Inr by simp
      qed simp
    next
      case None
      from Cons.IH[of "Suc j"] obtain ms where all:
        "length ms \<le> length ds \<and>
         (\<forall>i<length ms. dev_read w k (Suc j + i) = Inr (ms ! i)) \<and>
         filter is_emit (fst (poll_devices w False log_only k (Suc j) ds)) =
           map2 record_of (take (length ms) ds) ms \<and>
         (snd (poll_devices w False log_only k (Suc j) ds) = None \<longrightarrow> length ms = length ds)"
        ..
      note ms = all[THEN conjunct1] all[THEN conjunct2, THEN conjunct1]
        all[THEN conjunct2, THEN conjunct2, THEN conjunct1]
        all[THEN conjunct2, THEN conjunct2, THEN conjunct2]
      have reads: "\<forall>i<length (m # ms). dev_read w k (j + i) = Inr ((m # ms) ! i)"
      proof (intro allI impI)
        fix i assume i: "i < length (m # ms)"
        show "dev_read w k (j + i) = Inr ((m # ms) ! i)"
        proof (cases i)
          case 0
          then show ?thesis using Inr by simp
        next
          case (Suc i')
          then show ?thesis using ms(2) i by simp
        qed
      qed
      show ?thesis
      proof (intro exI[of _ "m # ms"] conjI)
        show "length (m # ms) \<le> length (d # ds)" using ms(1) by simp
        show "\<forall>i<length (m # ms). dev_read w k (j + i) = Inr ((m # ms) ! i)" by (rule reads)
        show "filter is_emit (fst (poll_devices w False log_only k j (d # ds))) =
            map2 record_of (take (length (m # ms)) (d # ds)) (m # ms)"
          using Inr None ms(3) by (simp add: split_beta record_of_def)
        show "snd (poll_devices w False log_only k j (d # ds)) = None \<longrightarrow>
            length (m # ms) = length (d # ds)"
          using Inr None ms(4) by (simp add: split_beta)
      qed
    qed
  qed
qed

lemma iteration_ping_first:
  "\<exists>rest. fst (iteration w debug log_only devs k) = WdPing # rest \<and> WdPing \<notin> set rest"
  using poll_devices_no_ping[of w debug log_only k 0 devs]
  by (simp add: iteration_def split_beta)

lemma pm_fields_key_set:
  "fst ` set (pm_fields m) =
     {''pm1_0_cf1'', ''pm1_0_atm'', ''pm2_5_cf1'', ''pm2_5_atm'', ''pm10_0_cf1'', ''pm10_0_atm''}"
proof -
  have "fst ` set (pm_fields m) = set (map fst (pm_fields m))" by simp
  also have "\<dots> = {''pm1_0_cf1'', ''pm1_0_atm'', ''pm2_5_cf1'', ''pm2_5_atm'', ''pm10_0_cf1'', ''pm10_0_atm''}"
    unfolding pm_fields_keys by auto
  finally show ?thesis .
qed

lemma sublist_mid: "sublist xs (a @ xs @ b)"
  by (rule sublist_appendI)

subsection \<open>What the debug output contains\<close>

lemma rule_line: "replicate 76 x = x # replicate 75 x"
  using replicate_Suc[of 75 x] by simp

lemma print_pm_not_debug_line: "print_pm m' \<notin> set (print_debug m)"
  by (simp add: print_pm_def print_debug_def split_beta rule_line del: str_nat.simps)

lemma print_pm_not_startup_line:
  "print_pm m' \<noteq> announcement lg" "print_pm m' \<noteq> beginning d"
  by (simp_all add: print_pm_def announcement_def beginning_def Fore_BLUE_def Fore_GREEN_def
      ESC_def split_beta del: str_nat.simps)

lemma print_pm_label: "sublist (fst (get_breakpoint (of_int (pm2_5_atm m)))) (print_pm m)"
proof -
  obtain aqi style where g: "get_breakpoint (of_int (pm2_5_atm m)) = (aqi, style)"
    by (cases "get_breakpoint (of_int (pm2_5_atm m))")
  have "print_pm m = (''PM 1.0: '' @ str_int (pm1_0_atm m) @ ''  '' @ ''PM 2.5: '' @ style
      @ str_int (pm2_5_atm m) @ Style_RESET_ALL @ ''  '' @ ''PM 10: '' @ str_int (pm10_0_atm m)
      @ ''  '' @ ''AQI: '' @ style) @ aqi @ Style_RESET_ALL"
    using g by (simp add: print_pm_def del: str_nat.simps)
  then show ?thesis using g by (metis sublist_appendI fst_conv)
qed

lemma sublist_last: "sublist xs (a @ xs)"
  using sublist_appendI[of xs a "[]"] by simp

lemma print_debug_length: "length (print_debug m) = 14"
  by (simp add: print_debug_def)

lemma print_debug_header:
  "sublist [fmt_c (header_high m)] (print_debug m ! 1)"
  "sublist [fmt_c (header_low m)] (print_debug m ! 1)"
  "sublist (str_int (frame_length m)) (print_debug m ! 1)"
proof -
  let ?tail = "'' '' @ [CHR 0x09, CHR 0x09] @ '' | Frame length : '' @ str_int (frame_length m)"
  have "print_debug m ! 1 =
      ''Header : '' @ [fmt_c (header_high m)] @ ('' '' @ [fmt_c (header_low m)] @ ?tail)"
    by (simp add: print_debug_def del: str_nat.simps)
  then show "sublist [fmt_c (header_high m)] (print_debug m ! 1)"
    by (metis sublist_appendI)
  have "print_debug m ! 1 =
      (''Header : '' @ [fmt_c (header_high m)] @ '' '') @ [fmt_c (header_low m)] @ ?tail"
    by (simp add: print_debug_def del: str_nat.simps)
  then show "sublist [fmt_c (header_low m)] (print_debug m ! 1)"
    by (metis sublist_appendI)
  have "print_debug m ! 1 =
      (''Header : '' @ [fmt_c (header_high m)] @ '' '' @ [fmt_c (header_low m)] @ '' ''
         @ [CHR 0x09, CHR 0x09] @ '' | Frame length : '') @ str_int (frame_length m)"
    by (simp add: print_debug_def del: str_nat.simps)
  then show "sublist (str_int (frame_length m)) (print_debug m ! 1)"
    by (metis sublist_last)
qed

lemma print_debug_pm:
  "sublist (str_int (pm1_0_cf1 m)) (print_debug m ! 2)"
  "sublist (str_int (pm1_0_atm m)) (print_debug m ! 2)"
  "sublist (str_int (pm2_5_cf1 m)) (print_debug m ! 3)"
  "sublist (str_int (pm2_5_atm m)) (print_debug m ! 3)"
  "sublist (str_int (pm10_0_cf1 m)) (print_debug m ! 4)"
  "sublist (str_int (pm10_0_atm m)) (print_debug m ! 4)"
proof -
  have l2: "print_debug m ! 2 =
      ''PM 1.0 (CF=1) : '' @ str_int (pm1_0_cf1 m) @ ([CHR 0x09] @ '' | PM 1.0 : '' @ str_int (pm1_0_atm m))"
    "print_debug m ! 2 =
      (''PM 1.0 (CF=1) : '' @ str_int (pm1_0_cf1 m) @ [CHR 0x09] @ '' | PM 1.0 : '') @ str_int (pm1_0_atm m)"
    by (simp_all add: print_debug_def del: str_nat.simps)
  have l3: "print_debug m ! 3 =
      ''PM 2.5 (CF=1) : '' @ str_int (pm2_5_cf1 m) @ ([CHR 0x09] @ '' | PM 2.5 : '' @ str_int (pm2_5_atm m))"
    "print_debug m ! 3 =
      (''PM 2.5 (CF=1) : '' @ str_int (pm2_5_cf1 m) @ [CHR 0x09] @ '' | PM 2.5 : '') @ str_int (pm2_5_atm m)"
    by (simp_all add: print_debug_def del: str_nat.simps)
  have l4: "print_debug m ! 4 =
      ''PM 10.0 (CF=1) : '' @ str_int (pm10_0_cf1 m) @ ([CHR 0x09] @ '' | PM 10.0 : '' @ str_int (pm10_0_atm m))"
    "print_debug m ! 4 =
      (''PM 10.0 (CF=1) : '' @ str_int (pm10_0_cf1 m) @ [CHR 0x09] @ '' | PM 10.0 : '') @ str_int (pm10_0_atm m)"
    by (simp_all add: print_debug_def del: str_nat.simps)
  show "sublist (str_int (pm1_0_cf1 m)) (print_debug m ! 2)" using l2(1) by (metis sublist_appendI)
  show "sublist (str_int (pm1_0_atm m)) (print_debug m ! 2)" using l2(2) by (metis sublist_last)
  show "sublist (str_int (pm2_5_cf1 m)) (print_debug m ! 3)" using l3(1) by (metis sublist_appendI)
  show "sublist (str_int (pm2_5_atm m)) (print_debug m ! 3)" using l3(2) by (metis sublist_last)
  show "sublist (str_int (pm10_0_cf1 m)) (print_debug m ! 4)" using l4(1) by (metis sublist_appendI)
  show "sublist (str_int (pm10_0_atm m)) (print_debug m ! 4)" using l4(2) by (metis sublist_last)
qed

lemma print_debug_counts:
  "sublist (str_int (count_0_3 m)) (print_debug m ! 5)"
  "sublist (str_int (count_0_5 m)) (print_debug m ! 6)"
  "sublist (str_int (count_1_0 m)) (print_debug m ! 7)"
  "sublist (str_int (count_2_5 m)) (print_debug m ! 8)"
  "sublist (str_int (count_5_0 m)) (print_debug m ! 9)"
  "sublist (str_int (count_10_0 m)) (print_debug m ! 10)"
  "sublist (str_int (reserved m)) (print_debug m ! 11)"
  "sublist (str_int (checksum m)) (print_debug m ! 12)"
proof -
  have "print_debug m ! 5 = ''0.3um in 0.1L of air : '' @ str_int (count_0_3 m)"
    by (simp add: print_debug_def del: str_nat.simps)
  then show "sublist (str_int (count_0_3 m)) (print_debug m ! 5)" by (metis sublist_last)
  have "print_debug m ! 6 = ''0.5um in 0.1L of air : '' @ str_int (count_0_5 m)"
    by (simp add: print_debug_def del: str_nat.simps)
  then show "sublist (str_int (count_0_5 m)) (print_debug m ! 6)" by (metis sublist_last)
  have "print_debug m ! 7 = ''1.0um in 0.1L of air : '' @ str_int (count_1_0 m)"
    by (simp add: print_debug_def del: str_nat.simps)
  then show "sublist (str_int (count_1_0 m)) (print_debug m ! 7)" by (metis sublist_last)
  have "print_debug m ! 8 = ''2.5um in 0.1L of air : '' @ str_int (count_2_5 m)"
    by (simp add: print_debug_def del: str_nat.simps)
  then show "sublist (str_int (count_2_5 m)) (print_debug m ! 8)" by (metis sublist_last)
  have "print_debug m ! 9 = ''5.0um in 0.1L of air : '' @ str_int (count_5_0 m)"
    by (simp add: print_debug_def del: str_nat.simps)
  then show "sublist (str_int (count_5_0 m)) (print_debug m ! 9)" by (metis sublist_last)
  have "print_debug m ! 10 = ''10.0um in 0.1L of air : '' @ str_int (count_10_0 m)"
    by (simp add: print_debug_def del: str_nat.simps)
  then show "sublist (str_int (count_10_0 m)) (print_debug m ! 10)" by (metis sublist_last)
  have "print_debug m ! 11 = ''Reserved F : '' @ str_int (reserved m)"
    by (simp add: print_debug_def del: str_nat.simps)
  then show "sublist (str_int (reserved m)) (print_debug m ! 11)" by (metis sublist_last)
  have "print_debug m ! 12 = ''CHKSUM : '' @ str_int (checksum m)"
    by (simp add: print_debug_def del: str_nat.simps)
  then show "sublist (str_int (checksum m)) (print_debug m ! 12)" by (metis sublist_last)
qed

lemma poll_devices_debug_no_summary:
  "e \<in> set (fst (poll_devices w True log_only k j ds)) \<Longrightarrow> e \<noteq> StdOut (print_pm m')"
  using print_pm_not_debug_line[of m']
  by (induction ds arbitrary: j) (auto simp: split_beta split: sum.splits)

lemma iteration_debug_no_summary:
  "e \<in> set (fst (iteration w True log_only devs k)) \<Longrightarrow> e \<noteq> StdOut (print_pm m')"
  using poll_devices_debug_no_summary[of e w log_only k 0 devs m']
  by (auto simp: iteration_def split_beta)

lemma stderr_not_summary: "is_stderr e \<Longrightarrow> e \<noteq> StdOut s"
  by (cases e) simp_all

lemma main_debug_no_summary:
  "StdOut (print_pm m') \<notin> set (fst (main w fuel only True log_only log_path))"
proof
  let ?e = "StdOut (print_pm m')"
  assume mem: "?e \<in> set (fst (main w fuel only True log_only log_path))"
  have nerr: "\<not> is_stderr ?e" by simp
  show False
  proof (cases "devs_of (find_devices w only) = []")
    case True
    then show ?thesis
      using mem nerr startup_log_stderr[of ?e True] warnings_stderr[of ?e "find_devices w only"]
      by (auto simp: main_returned split: if_splits)
  next
    case False
    have loop: "e' \<noteq> ?e"
      if "e' \<in> set (fst (run_loop w True log_only (devs_of (find_devices w only)) fuel 0))" for e'
      using that by (rule run_loop_events[where P = "\<lambda>e. e \<noteq> StdOut (print_pm m')", rotated])
        (rule iteration_debug_no_summary)
    show ?thesis
      using mem False nerr startup_log_stderr[of ?e True]
        warnings_stderr[of ?e "find_devices w only"] loop[of ?e]
        print_pm_not_startup_line[of m']
      by (auto simp: main_running)
  qed
qed

subsection \<open>The claims about \<open>main\<close>\<close>

text \<open>
  Claim C2. Every iteration of the polling loop emits exactly one liveness ping, and emits
  it first: the trace of an iteration is the ping followed by events among which there is
  no further ping, whatever the reads and emits of that iteration do (return or raise).
  All device reads of the iteration are among those later events, so no read error can
  suppress the ping. The trace of the loop is the concatenation of the traces of the
  iterations it started, all of them while it keeps running.
\<close>

theorem ping_once_per_iteration:
  "(\<exists>rest. fst (iteration w debug log_only devs k) = WdPing # rest \<and> WdPing \<notin> set rest) \<and>
   (\<exists>n\<le>fuel.
      fst (run_loop w debug log_only devs fuel 0) =
        concat (map (\<lambda>i. fst (iteration w debug log_only devs i)) [0..<n]) \<and>
      (snd (run_loop w debug log_only devs fuel 0) = Running \<longrightarrow> n = fuel))"
  using iteration_ping_first[of w debug log_only devs k]
    run_loop_trace[of fuel w debug log_only devs 0]
  by simp

theorem ping_once_per_iteration_witness:
  "iteration (ex_world [ex_found]) False False [ex_dev, ex_dev] 2 =
     ([WdPing, DevRead ex_dev], Some (ReadError ''read timeout'')) \<and>
   (\<exists>rest. fst (iteration (ex_world [ex_found]) False False [ex_dev, ex_dev] 2) = WdPing # rest
      \<and> WdPing \<notin> set rest)"
  using ping_once_per_iteration [of "ex_world [ex_found]" False False "[ex_dev, ex_dev]" 2 0]
  by (simp add: iteration_def ex_world_def)

text \<open>
  Claim C3. In normal mode the telemetry records of an iteration are, in device order,
  one record per device whose read returned, never more; an iteration that completes has
  dispatched exactly one record per device. In particular, when every read of the
  iteration returns a measurement and every emit returns, the records are exactly one per
  device. A record carries the tags \<open>type = PMS7003\<close> and \<open>id\<close> = the device's id,
  and its field keys are exactly the six PM names, each once, for every measurement.
\<close>

theorem normal_mode_one_record_per_device:
  "(\<exists>rs. length rs \<le> length devs \<and>
      (\<forall>j<length rs. dev_read w k j = Inr (rs ! j)) \<and>
      filter is_emit (fst (iteration w False log_only devs k)) =
        map2 record_of (take (length rs) devs) rs \<and>
      (snd (iteration w False log_only devs k) = None \<longrightarrow> length rs = length devs)) \<and>
   (length ms = length devs \<and>
    (\<forall>j<length devs. dev_read w k j = Inr (ms ! j) \<and> logger_emit w k j = None) \<longrightarrow>
      filter is_emit (fst (iteration w False log_only devs k)) = map2 record_of devs ms \<and>
      snd (iteration w False log_only devs k) = None) \<and>
   (\<forall>d m. record_of d m = SinkEmit (pm_fields m) [(''type'', ''PMS7003''), (''id'', id_dev d)] \<and>
      fst ` set (pm_fields m) =
        {''pm1_0_cf1'', ''pm1_0_atm'', ''pm2_5_cf1'', ''pm2_5_atm'',
         ''pm10_0_cf1'', ''pm10_0_atm''} \<and>
      distinct (map fst (pm_fields m)))"
proof -
  have it: "fst (iteration w False log_only devs k) = WdPing # fst (poll_devices w False log_only k 0 devs)"
    "snd (iteration w False log_only devs k) = snd (poll_devices w False log_only k 0 devs)"
    by (simp_all add: iteration_def split_beta)
  have general: "\<exists>rs. length rs \<le> length devs \<and>
      (\<forall>j<length rs. dev_read w k j = Inr (rs ! j)) \<and>
      filter is_emit (fst (iteration w False log_only devs k)) =
        map2 record_of (take (length rs) devs) rs \<and>
      (snd (iteration w False log_only devs k) = None \<longrightarrow> length rs = length devs)"
    using poll_devices_emits[where ds = devs and w = w and k = k and j = 0 and log_only = log_only]
    by (simp add: it)
  have complete: "filter is_emit (fst (iteration w False log_only devs k)) = map2 record_of devs ms \<and>
      snd (iteration w False log_only devs k) = None"
    if "length ms = length devs"
      "\<forall>j<length devs. dev_read w k j = Inr (ms ! j) \<and> logger_emit w k j = None"
  proof -
    have "poll_devices w False log_only k 0 devs =
        (concat (map2 (normal_events log_only) devs ms), None)"
      using that by (intro poll_devices_normal) simp_all
    then show ?thesis
      using that(1) by (simp add: it emits_of_normal_events)
  qed
  have shape: "record_of d m = SinkEmit (pm_fields m) [(''type'', ''PMS7003''), (''id'', id_dev d)] \<and>
      fst ` set (pm_fields m) =
        {''pm1_0_cf1'', ''pm1_0_atm'', ''pm2_5_cf1'', ''pm2_5_atm'',
         ''pm10_0_cf1'', ''pm10_0_atm''} \<and>
      distinct (map fst (pm_fields m))" for d m
  proof -
    have "distinct (map fst (pm_fields m))" unfolding pm_fields_keys by simp
    then show ?thesis by (simp add: record_of_def tags_def pm_fields_key_set)
  qed
  show ?thesis
  proof (intro conjI impI allI)
    show "\<exists>rs. length rs \<le> length devs \<and>
      (\<forall>j<length rs. dev_read w k j = Inr (rs ! j)) \<and>
      filter is_emit (fst (iteration w False log_only devs k)) =
        map2 record_of (take (length rs) devs) rs \<and>
      (snd (iteration w False log_only devs k) = None \<longrightarrow> length rs = length devs)"
      by (rule general)
  next
    assume h: "length ms = length devs \<and>
      (\<forall>j<length devs. dev_read w k j = Inr (ms ! j) \<and> logger_emit w k j = None)"
    from complete[OF h[THEN conjunct1] h[THEN conjunct2]]
    show "filter is_emit (fst (iteration w False log_only devs k)) = map2 record_of devs ms"
      and "snd (iteration w False log_only devs k) = None"
      by simp_all
  next
    fix d m
    from shape[of d m]
    show "record_of d m = SinkEmit (pm_fields m) [(''type'', ''PMS7003''), (''id'', id_dev d)]"
      and "fst ` set (pm_fields m) =
        {''pm1_0_cf1'', ''pm1_0_atm'', ''pm2_5_cf1'', ''pm2_5_atm'',
         ''pm10_0_cf1'', ''pm10_0_atm''}"
      and "distinct (map fst (pm_fields m))"
      by simp_all
  qed
qed

theorem normal_mode_one_record_per_device_witness:
  "length [ex_data] = length [ex_dev] \<and>
   dev_read (ex_world [ex_found]) 0 0 = Inr ex_data \<and>
   logger_emit (ex_world [ex_found]) 0 0 = None \<and>
   filter is_emit (fst (iteration (ex_world [ex_found]) False False [ex_dev] 0)) =
     [SinkEmit
        [(''pm1_0_cf1'', 3), (''pm2_5_cf1'', 5), (''pm10_0_cf1'', 7),
         (''pm1_0_atm'', 3), (''pm2_5_atm'', 42), (''pm10_0_atm'', 7)]
        [(''type'', ''PMS7003''), (''id'', ''ttyUSB0'')]]"
proof -
  have h: "length [ex_data] = length [ex_dev] \<and>
      (\<forall>j<length [ex_dev]. dev_read (ex_world [ex_found]) 0 j = Inr ([ex_data] ! j)
        \<and> logger_emit (ex_world [ex_found]) 0 j = None)"
    by (simp add: ex_world_def)
  have "filter is_emit (fst (iteration (ex_world [ex_found]) False False [ex_dev] 0)) =
      map2 record_of [ex_dev] [ex_data]"
    using normal_mode_one_record_per_device
      [where devs = "[ex_dev]" and ms = "[ex_data]" and w = "ex_world [ex_found]" and k = 0
         and log_only = False] h
    by blast
  moreover have "record_of ex_dev ex_data =
      SinkEmit
        [(''pm1_0_cf1'', 3), (''pm2_5_cf1'', 5), (''pm10_0_cf1'', 7),
         (''pm1_0_atm'', 3), (''pm2_5_atm'', 42), (''pm10_0_atm'', 7)]
        [(''type'', ''PMS7003''), (''id'', ''ttyUSB0'')]"
    by (simp add: record_of_def tags_def pm_fields_def asdict_def ex_data_def ex_dev_def)
  ultimately show ?thesis by (simp add: ex_world_def)
qed

text \<open>
  Claim C4. When no discovery result carries a device (the empty discovery sequence
  included), \<open>main\<close> returns, for every amount of fuel, having written only to the error
  stream: the sink is not opened, \<open>ready\<close> is not called and no ping is sent. Conversely,
  a run that pings or does not return has found a discovery result with a device.
\<close>

theorem no_devices_returns_cleanly:
  "((\<forall>p\<in>set (find_devices w only). dev p = None) \<longrightarrow>
      snd (main w fuel only debug log_only log_path) = Returned \<and>
      (\<forall>e\<in>set (fst (main w fuel only debug log_only log_path)). is_stderr e) \<and>
      SinkOpen log_path \<notin> set (fst (main w fuel only debug log_only log_path)) \<and>
      WdReady \<notin> set (fst (main w fuel only debug log_only log_path)) \<and>
      WdPing \<notin> set (fst (main w fuel only debug log_only log_path))) \<and>
   (WdPing \<in> set (fst (main w fuel only debug log_only log_path)) \<or>
    snd (main w fuel only debug log_only log_path) \<noteq> Returned \<longrightarrow>
      (\<exists>p\<in>set (find_devices w only). \<exists>d. dev p = Some d))"
proof -
  let ?t = "fst (main w fuel only debug log_only log_path)"
  have ret: "snd (main w fuel only debug log_only log_path) = Returned \<and> (\<forall>e\<in>set ?t. is_stderr e)"
    if "\<forall>p\<in>set (find_devices w only). dev p = None"
  proof -
    from that have "devs_of (find_devices w only) = []" by (simp add: devs_of_empty)
    then show ?thesis
      using startup_log_stderr[of _ debug] warnings_stderr[of _ "find_devices w only"]
      by (auto simp: main_returned)
  qed
  have a: "snd (main w fuel only debug log_only log_path) = Returned \<and>
      (\<forall>e\<in>set ?t. is_stderr e) \<and> SinkOpen log_path \<notin> set ?t \<and> WdReady \<notin> set ?t \<and> WdPing \<notin> set ?t"
    if "\<forall>p\<in>set (find_devices w only). dev p = None"
    using ret[OF that] by fastforce
  have b: "\<exists>p\<in>set (find_devices w only). \<exists>d. dev p = Some d"
    if "WdPing \<in> set ?t \<or> snd (main w fuel only debug log_only log_path) \<noteq> Returned"
  proof (rule ccontr)
    assume "\<not> (\<exists>p\<in>set (find_devices w only). \<exists>d. dev p = Some d)"
    then have "\<forall>p\<in>set (find_devices w only). dev p = None" by auto
    from a[OF this] that show False by blast
  qed
  from a b show ?thesis by blast
qed

theorem no_devices_returns_cleanly_witness:
  "map dev (find_devices (ex_world [ex_failed]) None) = [None] \<and>
   main (ex_world [ex_failed]) 7 None False False ''measurements.log'' =
     ([StdErr (warning ex_failed), StdErr no_pms_devices], Returned) \<and>
   main (ex_world []) 7 None False False ''measurements.log'' =
     ([StdErr no_serial_devices], Returned)"
  using no_devices_returns_cleanly [of "ex_world [ex_failed]" None 7 False False "''measurements.log''"]
  by (simp add: main_def Let_def ex_world_def ex_failed_def truthy_result_def
      configure_logging_def log_debug_def)

text \<open>
  Claim C6. In debug mode no telemetry record is dispatched anywhere in a run, however
  long it lasts. An iteration in which every read returns consists of the ping and, for
  each device, the read followed by the lines of \<open>print_debug\<close> for its measurement.
  Those are fourteen lines in which every one of the seventeen fields of the measurement
  is rendered: the two header bytes and the frame length in the second line, the six PM
  values in the next three, then the six counts, the reserved field and the checksum, one
  per line. Classification is skipped: the summary line of \<open>print_pm\<close>, the one place
  where the label of \<open>get_breakpoint\<close> is printed, occurs in no debug-mode run.
\<close>

theorem debug_mode_never_emits:
  "(\<forall>e\<in>set (fst (main w fuel only True log_only log_path)). \<not> is_emit e) \<and>
   (length ms = length devs \<and> (\<forall>j<length devs. dev_read w k j = Inr (ms ! j)) \<longrightarrow>
      iteration w True log_only devs k =
        (WdPing # concat (map2 debug_events devs ms), None)) \<and>
   (\<forall>d m. debug_events d m = DevRead d # map StdOut (print_debug m)) \<and>
   (\<forall>m. length (print_debug m) = 14 \<and>
      sublist [fmt_c (header_high m)] (print_debug m ! 1) \<and>
      sublist [fmt_c (header_low m)] (print_debug m ! 1) \<and>
      sublist (str_int (frame_length m)) (print_debug m ! 1) \<and>
      sublist (str_int (pm1_0_cf1 m)) (print_debug m ! 2) \<and>
      sublist (str_int (pm1_0_atm m)) (print_debug m ! 2) \<and>
      sublist (str_int (pm2_5_cf1 m)) (print_debug m ! 3) \<and>
      sublist (str_int (pm2_5_atm m)) (print_debug m ! 3) \<and>
      sublist (str_int (pm10_0_cf1 m)) (print_debug m ! 4) \<and>
      sublist (str_int (pm10_0_atm m)) (print_debug m ! 4) \<and>
      sublist (str_int (count_0_3 m)) (print_debug m ! 5) \<and>
      sublist (str_int (count_0_5 m)) (print_debug m ! 6) \<and>
      sublist (str_int (count_1_0 m)) (print_debug m ! 7) \<and>
      sublist (str_int (count_2_5 m)) (print_debug m ! 8) \<and>
      sublist (str_int (count_5_0 m)) (print_debug m ! 9) \<and>
      sublist (str_int (count_10_0 m)) (print_debug m ! 10) \<and>
      sublist (str_int (reserved m)) (print_debug m ! 11) \<and>
      sublist (str_int (checksum m)) (print_debug m ! 12)) \<and>
   (\<forall>m. sublist (fst (get_breakpoint (of_int (pm2_5_atm m)))) (print_pm m) \<and>
      StdOut (print_pm m) \<notin> set (fst (main w fuel only True log_only log_path)) \<and>
      StdOut (print_pm m) \<notin> set (fst (iteration w True log_only devs k)))"
proof -
  have full: "iteration w True log_only devs k = (WdPing # concat (map2 debug_events devs ms), None)"
    if "length ms = length devs" "\<forall>j<length devs. dev_read w k j = Inr (ms ! j)"
  proof -
    have "poll_devices w True log_only k 0 devs = (concat (map2 debug_events devs ms), None)"
      using that by (intro poll_devices_debug) simp_all
    then show ?thesis by (simp add: iteration_def)
  qed
  have quiet: "\<forall>e\<in>set (fst (main w fuel only True log_only log_path)). \<not> is_emit e"
    using main_debug_no_emit[of _ w fuel only log_only log_path] by blast
  have shape: "\<forall>d m. debug_events d m = DevRead d # map StdOut (print_debug m)"
    by (simp add: debug_events_def)
  have rendered: "\<forall>m. length (print_debug m) = 14 \<and>
      sublist [fmt_c (header_high m)] (print_debug m ! 1) \<and>
      sublist [fmt_c (header_low m)] (print_debug m ! 1) \<and>
      sublist (str_int (frame_length m)) (print_debug m ! 1) \<and>
      sublist (str_int (pm1_0_cf1 m)) (print_debug m ! 2) \<and>
      sublist (str_int (pm1_0_atm m)) (print_debug m ! 2) \<and>
      sublist (str_int (pm2_5_cf1 m)) (print_debug m ! 3) \<and>
      sublist (str_int (pm2_5_atm m)) (print_debug m ! 3) \<and>
      sublist (str_int (pm10_0_cf1 m)) (print_debug m ! 4) \<and>
      sublist (str_int (pm10_0_atm m)) (print_debug m ! 4) \<and>
      sublist (str_int (count_0_3 m)) (print_debug m ! 5) \<and>
      sublist (str_int (count_0_5 m)) (print_debug m ! 6) \<and>
      sublist (str_int (count_1_0 m)) (print_debug m ! 7) \<and>
      sublist (str_int (count_2_5 m)) (print_debug m ! 8) \<and>
      sublist (str_int (count_5_0 m)) (print_debug m ! 9) \<and>
      sublist (str_int (count_10_0 m)) (print_debug m ! 10) \<and>
      sublist (str_int (reserved m)) (print_debug m ! 11) \<and>
      sublist (str_int (checksum m)) (print_debug m ! 12)"
    by (intro allI conjI print_debug_length print_debug_header print_debug_pm print_debug_counts)
  have skipped: "\<forall>m. sublist (fst (get_breakpoint (of_int (pm2_5_atm m)))) (print_pm m) \<and>
      StdOut (print_pm m) \<notin> set (fst (main w fuel only True log_only log_path)) \<and>
      StdOut (print_pm m) \<notin> set (fst (iteration w True log_only devs k))"
    using iteration_debug_no_summary[of _ w log_only devs k]
    by (intro allI conjI print_pm_label main_debug_no_summary) blast
  from quiet full shape rendered skipped show ?thesis by (intro conjI impI) blast+
qed

theorem debug_mode_never_emits_witness:
  "length [ex_data] = length [ex_dev] \<and>
   dev_read (ex_world [ex_found]) 1 0 = Inr ex_data \<and>
   iteration (ex_world [ex_found]) True False [ex_dev] 1 =
     (WdPing # DevRead ex_dev # map StdOut (print_debug ex_data), None) \<and>
   filter is_emit (fst (main (ex_world [ex_found]) 3 None True False ''measurements.log'')) = [] \<and>
   print_debug ex_data =
     [replicate 76 (CHR ''=''),
      ''Header : B M '' @ [CHR 0x09, CHR 0x09] @ '' | Frame length : 28'',
      ''PM 1.0 (CF=1) : 3'' @ [CHR 0x09] @ '' | PM 1.0 : 3'',
      ''PM 2.5 (CF=1) : 5'' @ [CHR 0x09] @ '' | PM 2.5 : 42'',
      ''PM 10.0 (CF=1) : 7'' @ [CHR 0x09] @ '' | PM 10.0 : 7'',
      ''0.3um in 0.1L of air : 100'',
      ''0.5um in 0.1L of air : 50'',
      ''1.0um in 0.1L of air : 10'',
      ''2.5um in 0.1L of air : 2'',
      ''5.0um in 0.1L of air : 1'',
      ''10.0um in 0.1L of air : 0'',
      ''Reserved F : 0'',
      ''CHKSUM : 321'',
      replicate 76 (CHR ''='')] \<and>
   sublist ''Unhealthy for Certain Groups'' (print_pm ex_data) \<and>
   StdOut (print_pm ex_data)
     \<notin> set (fst (main (ex_world [ex_found]) 3 None True False ''measurements.log''))"
proof -
  note inst = debug_mode_never_emits
    [of "ex_world [ex_found]" 3 None False "''measurements.log''" "[ex_data]" "[ex_dev]" 1]
  have reads: "dev_read (ex_world [ex_found]) 1 0 = Inr ex_data"
    by (simp add: ex_world_def)
  have it: "iteration (ex_world [ex_found]) True False [ex_dev] 1 =
     (WdPing # DevRead ex_dev # map StdOut (print_debug ex_data), None)"
    using inst reads by (simp add: debug_events_def del: str_nat.simps)
  have emits: "filter is_emit (fst (main (ex_world [ex_found]) 3 None True False ''measurements.log'')) = []"
    using inst by (simp only: filter_empty_conv) blast
  have lines: "print_debug ex_data =
     [replicate 76 (CHR ''=''),
      ''Header : B M '' @ [CHR 0x09, CHR 0x09] @ '' | Frame length : 28'',
      ''PM 1.0 (CF=1) : 3'' @ [CHR 0x09] @ '' | PM 1.0 : 3'',
      ''PM 2.5 (CF=1) : 5'' @ [CHR 0x09] @ '' | PM 2.5 : 42'',
      ''PM 10.0 (CF=1) : 7'' @ [CHR 0x09] @ '' | PM 10.0 : 7'',
      ''0.3um in 0.1L of air : 100'',
      ''0.5um in 0.1L of air : 50'',
      ''1.0um in 0.1L of air : 10'',
      ''2.5um in 0.1L of air : 2'',
      ''5.0um in 0.1L of air : 1'',
      ''10.0um in 0.1L of air : 0'',
      ''Reserved F : 0'',
      ''CHKSUM : 321'',
      replicate 76 (CHR ''='')]"
    by (simp add: print_debug_def ex_data_def str_int_def digit_char_def fmt_c_def char_of_def bit_0)
  have "fst (get_breakpoint (of_int (pm2_5_atm ex_data))) = ''Unhealthy for Certain Groups''"
    by (simp add: get_breakpoint_def ex_data_def)
  moreover have "sublist (fst (get_breakpoint (of_int (pm2_5_atm ex_data)))) (print_pm ex_data)"
    using inst by blast
  ultimately have label: "sublist ''Unhealthy for Certain Groups'' (print_pm ex_data)"
    by simp
  have absent: "StdOut (print_pm ex_data)
     \<notin> set (fst (main (ex_world [ex_found]) 3 None True False ''measurements.log''))"
    using inst by blast
  from reads it emits lines label absent show ?thesis by simp
qed

text \<open>
  Claim C7. In log-only mode (normal, non-debug) an iteration writes nothing to standard
  output, and apart from that it is the iteration of the plain normal mode: same outcome,
  same events once the summary lines are removed, hence the same telemetry records. When
  every read and emit of the iteration returns, the trace is the ping and, per device, the
  read and its record.
\<close>

theorem log_only_suppresses_summary_only:
  "(\<forall>e\<in>set (fst (iteration w False True devs k)). \<not> is_stdout e) \<and>
   iteration w False True devs k =
     (filter (\<lambda>e. \<not> is_stdout e) (fst (iteration w False False devs k)),
      snd (iteration w False False devs k)) \<and>
   filter is_emit (fst (iteration w False True devs k)) =
     filter is_emit (fst (iteration w False False devs k)) \<and>
   (length ms = length devs \<and>
    (\<forall>j<length devs. dev_read w k j = Inr (ms ! j) \<and> logger_emit w k j = None) \<longrightarrow>
      iteration w False True devs k =
        (WdPing # concat (map2 (\<lambda>d m. [DevRead d, SinkEmit (pm_fields m) (tags d)]) devs ms),
         None))"
proof -
  have eq: "iteration w False True devs k =
     (filter (\<lambda>e. \<not> is_stdout e) (fst (iteration w False False devs k)),
      snd (iteration w False False devs k))"
    using poll_devices_log_only[of w k 0 devs] by (simp add: iteration_def split_beta)
  have quiet: "\<forall>e\<in>set (fst (iteration w False True devs k)). \<not> is_stdout e"
    using poll_devices_log_only_no_stdout[of _ w k 0 devs]
    by (auto simp: iteration_def split_beta)
  have "filter is_emit (filter (\<lambda>e. \<not> is_stdout e) t) = filter is_emit t" for t
    by (induction t) (auto elim: is_emit.elims)
  then have emits: "filter is_emit (fst (iteration w False True devs k)) =
     filter is_emit (fst (iteration w False False devs k))"
    by (simp add: eq)
  have full: "iteration w False True devs k =
        (WdPing # concat (map2 (\<lambda>d m. [DevRead d, SinkEmit (pm_fields m) (tags d)]) devs ms), None)"
    if "length ms = length devs"
      "\<forall>j<length devs. dev_read w k j = Inr (ms ! j) \<and> logger_emit w k j = None"
  proof -
    have "poll_devices w False True k 0 devs = (concat (map2 (normal_events True) devs ms), None)"
      using that by (intro poll_devices_normal) simp_all
    moreover have "normal_events True = (\<lambda>d m. [DevRead d, SinkEmit (pm_fields m) (tags d)])"
      by (simp add: normal_events_def fun_eq_iff)
    ultimately show ?thesis by (simp add: iteration_def)
  qed
  from quiet eq emits full show ?thesis by blast
qed

theorem log_only_suppresses_summary_only_witness:
  "length [ex_data] = length [ex_dev] \<and>
   dev_read (ex_world [ex_found]) 0 0 = Inr ex_data \<and>
   logger_emit (ex_world [ex_found]) 0 0 = None \<and>
   iteration (ex_world [ex_found]) False True [ex_dev] 0 =
     ([WdPing, DevRead ex_dev, SinkEmit (pm_fields ex_data) (tags ex_dev)], None) \<and>
   iteration (ex_world [ex_found]) False False [ex_dev] 0 =
     ([WdPing, DevRead ex_dev, SinkEmit (pm_fields ex_data) (tags ex_dev),
       StdOut (print_pm ex_data)], None)"
  using log_only_suppresses_summary_only [of "ex_world [ex_found]" "[ex_dev]" 0 "[ex_data]"]
  by (simp add: iteration_def ex_world_def)

text \<open>
  Claim C8. The trace of every run contains, on the error stream and in discovery order,
  one warning for each discovery result without a device, none skipped. The warning is
  \<open>error on <description> <port>: <error>\<close> in yellow, so it contains the port path,
  the description and, when the result carries one, the error message.
\<close>

theorem discovery_warnings_all_reported:
  "(\<exists>pre post.
      fst (main w fuel only debug log_only log_path) =
        pre @ map (\<lambda>p. StdErr (warning p)) (filter (\<lambda>p. dev p = None) (find_devices w only))
          @ post) \<and>
   (\<forall>p. warning p =
      Fore_YELLOW @ ''error on '' @ desc p @ '' '' @ port p @ '': '' @ str_opt (error p)
        @ Style_RESET_ALL \<and>
      sublist (port p) (warning p) \<and> sublist (desc p) (warning p) \<and>
      (\<forall>msg. error p = Some msg \<longrightarrow> sublist msg (warning p)))"
proof -
  let ?ws = "map (\<lambda>p. StdErr (warning p)) (filter (\<lambda>p. dev p = None) (find_devices w only))"
  have tr: "\<exists>pre post. fst (main w fuel only debug log_only log_path) = pre @ ?ws @ post"
  proof (cases "devs_of (find_devices w only) = []")
    case True
    show ?thesis
    proof (cases "find_devices w only = []")
      case True
      then have "fst (main w fuel only debug log_only log_path) =
          (startup_log debug @ [StdErr no_serial_devices]) @ ?ws @ []"
        by (simp add: main_returned)
      then show ?thesis by blast
    next
      case False
      with True have "fst (main w fuel only debug log_only log_path) =
          startup_log debug @ ?ws @ [StdErr no_pms_devices]"
        by (simp add: main_returned warnings_filter)
      then show ?thesis by blast
    qed
  next
    case False
    then have "fst (main w fuel only debug log_only log_path) =
        startup_log debug @ ?ws @
          ([SinkOpen log_path, StdOut (announcement (new_logger w log_path))]
           @ map (\<lambda>d. StdOut (beginning d)) (devs_of (find_devices w only))
           @ [WdReady]
           @ fst (run_loop w debug log_only (devs_of (find_devices w only)) fuel 0))"
      by (simp add: main_running warnings_filter)
    then show ?thesis by blast
  qed
  have parts: "sublist (port p) (warning p) \<and> sublist (desc p) (warning p) \<and>
      (\<forall>msg. error p = Some msg \<longrightarrow> sublist msg (warning p))" for p
  proof -
    have "warning p = (Fore_YELLOW @ ''error on '' @ desc p @ '' '') @ port p
        @ ('': '' @ str_opt (error p) @ Style_RESET_ALL)"
      by (simp add: warning_def)
    then have 1: "sublist (port p) (warning p)" by (metis sublist_mid)
    have "warning p = (Fore_YELLOW @ ''error on '') @ desc p
        @ ('' '' @ port p @ '': '' @ str_opt (error p) @ Style_RESET_ALL)"
      by (simp add: warning_def)
    then have 2: "sublist (desc p) (warning p)" by (metis sublist_mid)
    have 3: "sublist msg (warning p)" if "error p = Some msg" for msg
    proof -
      have "warning p = (Fore_YELLOW @ ''error on '' @ desc p @ '' '' @ port p @ '': '') @ msg
          @ Style_RESET_ALL"
        using that by (simp add: warning_def)
      then show ?thesis by (metis sublist_mid)
    qed
    from 1 2 3 show ?thesis by blast
  qed
  from tr parts show ?thesis by (simp add: warning_def)
qed

theorem discovery_warnings_all_reported_witness:
  "fst (main (ex_world [ex_failed, ex_found, ex_failed]) 0 None False False ''m.log'') =
     [StdErr (warning ex_failed), StdErr (warning ex_failed),
      SinkOpen ''m.log'',
      StdOut (announcement \<lparr>MEASUREMENT = ''particulate_matter'', path = ''m.log''\<rparr>),
      StdOut (beginning ex_dev), WdReady] \<and>
   sublist ''Permission denied'' (warning ex_failed) \<and>
   sublist ''/dev/ttyS0'' (warning ex_failed)"
proof -
  have run: "fst (main (ex_world [ex_failed, ex_found, ex_failed]) 0 None False False ''m.log'') =
     [StdErr (warning ex_failed), StdErr (warning ex_failed),
      SinkOpen ''m.log'',
      StdOut (announcement \<lparr>MEASUREMENT = ''particulate_matter'', path = ''m.log''\<rparr>),
      StdOut (beginning ex_dev), WdReady]"
    by (simp add: main_def Let_def ex_world_def ex_failed_def ex_found_def truthy_result_def
        truthy_dev_def configure_logging_def log_debug_def)
  have "sublist (port ex_failed) (warning ex_failed) \<and>
      (\<forall>msg. error ex_failed = Some msg \<longrightarrow> sublist msg (warning ex_failed))"
    using discovery_warnings_all_reported
      [of "ex_world [ex_failed, ex_found, ex_failed]" 0 None False False "''m.log''"]
    by blast
  moreover have "port ex_failed = ''/dev/ttyS0''" "error ex_failed = Some ''Permission denied''"
    by (simp_all add: ex_failed_def)
  ultimately show ?thesis using run by simp
qed

text \<open>
  Claim C10. Whenever some discovery result carries a device, the run opens the sink at
  the given path and announces the sink's path on standard output right after, with only
  error-stream lines before; this holds for either value of the debug flag. In debug mode
  the sink is opened all the same although no record is ever emitted to it.
\<close>

theorem sink_opened_whenever_device:
  "(\<exists>p\<in>set (find_devices w only). \<exists>d. dev p = Some d) \<Longrightarrow>
   (\<exists>pre post.
      fst (main w fuel only debug log_only log_path) =
        pre @ [SinkOpen log_path, StdOut (announcement (new_logger w log_path))] @ post \<and>
      (\<forall>e\<in>set pre. is_stderr e)) \<and>
   announcement (new_logger w log_path) =
     Fore_BLUE @ ''writing influxdb measurement '' @ MEASUREMENT (new_logger w log_path)
       @ '' to '' @ path (new_logger w log_path) @ Style_RESET_ALL \<and>
   (\<forall>e\<in>set (fst (main w fuel only True log_only log_path)). \<not> is_emit e)"
proof -
  assume "\<exists>p\<in>set (find_devices w only). \<exists>d. dev p = Some d"
  then have ne: "devs_of (find_devices w only) \<noteq> []"
    by (auto simp: devs_of_empty)
  let ?pre = "startup_log debug @ warnings (find_devices w only)"
  let ?post = "map (\<lambda>d. StdOut (beginning d)) (devs_of (find_devices w only))
           @ [WdReady]
           @ fst (run_loop w debug log_only (devs_of (find_devices w only)) fuel 0)"
  have "fst (main w fuel only debug log_only log_path) =
      ?pre @ [SinkOpen log_path, StdOut (announcement (new_logger w log_path))] @ ?post"
    using ne by (simp add: main_running)
  moreover have "\<forall>e\<in>set ?pre. is_stderr e"
    using startup_log_stderr[of _ debug] warnings_stderr[of _ "find_devices w only"] by auto
  ultimately have "\<exists>pre post.
      fst (main w fuel only debug log_only log_path) =
        pre @ [SinkOpen log_path, StdOut (announcement (new_logger w log_path))] @ post \<and>
      (\<forall>e\<in>set pre. is_stderr e)"
    by blast
  then show ?thesis
    using main_debug_no_emit[of _ w fuel only log_only log_path]
    by (simp add: announcement_def)
qed

theorem sink_opened_whenever_device_witness:
  "map dev (find_devices (ex_world [ex_failed, ex_found]) None) = [None, Some ex_dev] \<and>
   fst (main (ex_world [ex_failed, ex_found]) 1 None True False ''m.log'') =
     [StdErr ''configured debug logging'', StdErr ''looking for possible PMS7003 devices...'',
      StdErr (warning ex_failed),
      SinkOpen ''m.log'',
      StdOut (announcement \<lparr>MEASUREMENT = ''particulate_matter'', path = ''m.log''\<rparr>),
      StdOut (beginning ex_dev), WdReady, WdPing, DevRead ex_dev]
     @ map StdOut (print_debug ex_data)"
  using sink_opened_whenever_device
    [of "ex_world [ex_failed, ex_found]" None 1 True False "''m.log''"]
  by (simp add: main_def Let_def iteration_def ex_world_def ex_failed_def ex_found_def
      truthy_result_def truthy_dev_def configure_logging_def log_debug_def)

end
